theory Spec2Isabelle
  imports Complex_Main "HOL-Library.Sublist" "HOL-Library.Signed_Division" "HOL-Library.Word"
    "HOL-Library.Log_Nat" "HOL-Library.Multiset"
begin

section \<open>Library values\<close>

text \<open>
  The pool module computes with three kinds of numbers:
  \<^item> \<open>Decimal\<close> (decimal.js): modelled as an exact rational. Every operation the
    module applies (\<open>add\<close>, \<open>sub\<close>, \<open>minus\<close>, \<open>mul\<close>, \<open>div\<close>) is the exact field
    operation, as the data model of the specification has it (a decimal is not rounded before
    the final integer conversion); the working precision configured for decimal.js is not part
    of the sources under study.
  \<open>ceil\<close> and \<open>floor\<close> are the integer ceiling and floor, and \<open>toFixed(0)\<close> rounds to
    the nearest integer with halves away from zero (decimal.js rounding mode \<open>ROUND_HALF_UP\<close>,
    its default).
  \<^item> \<open>BN\<close> (bn.js): an unbounded integer, \<open>int\<close>.
  \<^item> JavaScript numbers holding tick indices: integers far below \<open>2 ^ 53\<close>, modelled as
    \<open>int\<close>, with \<open>NaN\<close> as a value of its own where the remainder by zero produces it.
\<close>

type_synonym Decimal = rat

type_synonym BN = int

datatype error =
  InvalidSlippage    \<comment> \<open>\<open>Error('invalid slippage range')\<close>\<close>
| InvalidPoolType    \<comment> \<open>\<open>Error('Invalid pool type')\<close>\<close>
| InvalidPrice       \<comment> \<open>raised by the price conversions of \<open>MathUtil\<close>\<close>
| NotFinite          \<comment> \<open>a \<open>Decimal\<close> quotient by zero (\<open>Infinity\<close> or \<open>NaN\<close>) reaching \<open>new BN\<close>\<close>
| ProviderFailed     \<comment> \<open>the awaited provider call did not answer\<close>


section \<open>Slippage guard\<close>



section \<open>SUI detection and gas stripping\<close>

text \<open>
  \<open>String.prototype.toLowerCase\<close> on the ASCII letters; every other character is kept.
\<close>

definition toLowerCase_char :: "char \<Rightarrow> char" where
  "toLowerCase_char c =
     (let n = (of_char c :: nat) in if 65 \<le> n \<and> n \<le> 90 then char_of (n + 32) else c)"

definition toLowerCase :: "string \<Rightarrow> string" where
  "toLowerCase s = map toLowerCase_char s"

text \<open>
  \<open>String.prototype.indexOf\<close>: the position of the first occurrence of the pattern, \<open>-1\<close> when
  there is none. The counter is the position of the suffix under inspection.
\<close>

primrec indexOfFrom :: "nat \<Rightarrow> string \<Rightarrow> string \<Rightarrow> int" where
  "indexOfFrom i [] pat = (if pat = [] then int i else - 1)"
| "indexOfFrom i (c # cs) pat =
     (if prefix pat (c # cs) then int i else indexOfFrom (Suc i) cs pat)"

definition indexOf :: "string \<Rightarrow> string \<Rightarrow> int" where
  "indexOf s pat = indexOfFrom 0 s pat"

definition isSUI :: "string \<Rightarrow> bool" where
  "isSUI coinType = (indexOf (toLowerCase coinType) ''sui'' > - 1)"



section \<open>Pool type parsing\<close>

text \<open>The character class \<open>\w\<close> of the regular expression: ASCII letters, digits and the underscore.\<close>

definition isWordChar :: "char \<Rightarrow> bool" where
  "isWordChar c =
     (let n = (of_char c :: nat)
      in (48 \<le> n \<and> n \<le> 57) \<or> (65 \<le> n \<and> n \<le> 90) \<or> n = 95 \<or> (97 \<le> n \<and> n \<le> 122))"

text \<open>
  One attempt of \<open>\w+::\w+::\w+\<close> at the start of a string. A word run has to be followed by
  a colon, which is no word character, so each greedy \<open>\w+\<close> takes the whole run: giving back
  characters cannot make the attempt succeed.
\<close>

definition matchSegment :: "string \<Rightarrow> string option" where
  "matchSegment s =
     (let w1 = takeWhile isWordChar s; r1 = dropWhile isWordChar s
      in if w1 = [] \<or> take 2 r1 \<noteq> ''::'' then None
         else
           let w2 = takeWhile isWordChar (drop 2 r1); r2 = dropWhile isWordChar (drop 2 r1)
           in if w2 = [] \<or> take 2 r2 \<noteq> ''::'' then None
              else
                let w3 = takeWhile isWordChar (drop 2 r2)
                in if w3 = [] then None else Some (w1 @ ''::'' @ w2 @ ''::'' @ w3))"

text \<open>
  The global search of \<open>String.prototype.match\<close> with the \<open>g\<close> flag: the leftmost match from
  \<open>lastIndex\<close> on, then again from the end of that match. The counter is the number of
  characters still in front of \<open>lastIndex\<close>.
\<close>

fun matchAllFrom :: "nat \<Rightarrow> string \<Rightarrow> string list" where
  "matchAllFrom skip [] = []"
| "matchAllFrom (Suc skip) (c # cs) = matchAllFrom skip cs"
| "matchAllFrom 0 (c # cs) =
     (case matchSegment (c # cs) of
        None \<Rightarrow> matchAllFrom 0 cs
      | Some m \<Rightarrow> m # matchAllFrom (length m - 1) cs)"

text \<open>\<open>type.match(/(\w+::\w+::\w+)/g)\<close>: \<open>null\<close> when nothing matches, else all matches in order.\<close>

definition String_match :: "string \<Rightarrow> string list option" where
  "String_match s = (case matchAllFrom 0 s of [] \<Rightarrow> None | m # ms \<Rightarrow> Some (m # ms))"

definition parsePoolType :: "string \<Rightarrow> error + (string \<times> string \<times> string)" where
  "parsePoolType type =
     (case String_match type of
        None \<Rightarrow> Inl InvalidPoolType
      | Some matched \<Rightarrow>
          if length matched \<noteq> 4 then Inl InvalidPoolType
          else Inr (matched ! 1, matched ! 2, matched ! 3))"

text \<open>The earlier pool module has the same parser under the name \<open>getPoolTypeArguments\<close>.\<close>

definition getPoolTypeArguments_001 :: "string \<Rightarrow> error + (string \<times> string \<times> string)" where
  "getPoolTypeArguments_001 type =
     (case String_match type of
        None \<Rightarrow> Inl InvalidPoolType
      | Some matched \<Rightarrow>
          if length matched \<noteq> 4 then Inl InvalidPoolType
          else Inr (matched ! 1, matched ! 2, matched ! 3))"

text \<open>
  What a match of the expression looks like: three non-empty words joined by \<open>::\<close>.
\<close>

definition isSegment :: "string \<Rightarrow> bool" where
  "isSegment m \<longleftrightarrow>
     (\<exists>w1 w2 w3. m = w1 @ ''::'' @ w2 @ ''::'' @ w3
        \<and> w1 \<noteq> [] \<and> w2 \<noteq> [] \<and> w3 \<noteq> []
        \<and> list_all isWordChar w1 \<and> list_all isWordChar w2 \<and> list_all isWordChar w3)"

section \<open>The math collaborator\<close>

text \<open>
  \<open>Pool\<close> reaches the numeric core through \<open>this.math\<close>, a \<open>MathUtil\<close> whose module is not
  among the sources. The functions the pool module calls are the fields of a record, so that
  what is proved of the pool module holds for every \<open>MathUtil\<close>.
\<close>

record MathUtil =
  priceToTickIndex :: "Decimal \<Rightarrow> int \<Rightarrow> int \<Rightarrow> error + int"
  toX64_Decimal :: "Decimal \<Rightarrow> Decimal"
  fromX64_Decimal :: "Decimal \<Rightarrow> Decimal"

text \<open>
  Modelled from the spec: \<open>MathUtil.priceToTickIndex\<close>, whose module is absent. The
  effective ratio is \<open>price * 10^(decimalsB - decimalsA)\<close> and the tick is
  \<open>floor(log(effective ratio) / log(1.0001))\<close>; a price that is not positive fails with
  \<open>InvalidPrice\<close>.
\<close>

definition spec_priceToTickIndex :: "Decimal \<Rightarrow> int \<Rightarrow> int \<Rightarrow> error + int" where
  "spec_priceToTickIndex price decimalsA decimalsB =
     (if price \<le> 0 then Inl InvalidPrice
      else Inr \<lfloor>ln (real_of_rat price * 10 powr real_of_int (decimalsB - decimalsA))
                 / ln (10001 / 10000)\<rfloor>)"

text \<open>
  Modelled from the spec: \<open>MathUtil.priceToSqrtPriceX64\<close>, whose module is absent. The
  result is \<open>floor(sqrt(effective ratio) * 2^64)\<close> for the same effective ratio; a price that
  is not positive fails with \<open>InvalidPrice\<close>.
\<close>

definition spec_priceToSqrtPriceX64 :: "Decimal \<Rightarrow> int \<Rightarrow> int \<Rightarrow> error + int" where
  "spec_priceToSqrtPriceX64 price decimalsA decimalsB =
     (if price \<le> 0 then Inl InvalidPrice
      else Inr \<lfloor>sqrt (real_of_rat price * 10 powr real_of_int (decimalsB - decimalsA)) * 2 ^ 64\<rfloor>)"

text \<open>
  Modelled from the spec: the X64 shift helpers of \<open>MathUtil\<close>, whose module is absent:
  \<open>toX64(value) = value * 2^64\<close> and \<open>fromX64(value) = value / 2^64\<close>, exact on decimals.
\<close>

definition spec_toX64_Decimal :: "Decimal \<Rightarrow> Decimal" where
  "spec_toX64_Decimal num = num * 2 ^ 64"

definition spec_fromX64_Decimal :: "Decimal \<Rightarrow> Decimal" where
  "spec_fromX64_Decimal num = num / 2 ^ 64"

definition spec_math :: MathUtil where
  "spec_math = \<lparr>priceToTickIndex = spec_priceToTickIndex,
                toX64_Decimal = spec_toX64_Decimal,
                fromX64_Decimal = spec_fromX64_Decimal\<rparr>"

section \<open>Tick snapping\<close>

text \<open>Of \<open>CoinMetadata\<close> and \<open>Contract.Fee\<close> the pool module reads these fields.\<close>

record CoinMetadata =
  decimals :: int

record Fee =
  fee_type :: string
  objectId :: string
  tickSpacing :: int

text \<open>
  A JavaScript number holding a tick: an integer, or \<open>NaN\<close> (the remainder by zero).
\<close>

datatype tick = Tick int | NaN

text \<open>
  \<open>Pool.getTickIndex\<close>. The remainder \<open>%\<close> of JavaScript takes the sign of the dividend
  (\<open>smod\<close>), and is \<open>NaN\<close> for a zero divisor.
\<close>

definition getTickIndex :: "MathUtil \<Rightarrow> Decimal \<Rightarrow> CoinMetadata \<Rightarrow> CoinMetadata \<Rightarrow> Fee \<Rightarrow> error + tick" where
  "getTickIndex math price coinA coinB fee =
     (case priceToTickIndex math price (decimals coinA) (decimals coinB) of
        Inl e \<Rightarrow> Inl e
      | Inr tick \<Rightarrow>
          if tickSpacing fee = 0 then Inr NaN
          else Inr (Tick (tick - tick smod tickSpacing fee)))"

section \<open>Token amounts of a liquidity position\<close>

record TokenAmountOptions =
  currentSqrtPrice :: BN
  lowerSqrtPrice :: BN
  upperSqrtPrice :: BN
  liquidity :: "BN option"    \<comment> \<open>\<open>liquidity?: BN\<close>\<close>
  ceil :: "bool option"       \<comment> \<open>\<open>ceil?: boolean\<close>\<close>

text \<open>
  \<open>Decimal.prototype.div\<close>: a zero divisor gives \<open>Infinity\<close> or \<open>NaN\<close>, which has no \<open>BN\<close>
  value; the failure is recorded where it arises.
\<close>

definition Decimal_div :: "Decimal \<Rightarrow> Decimal \<Rightarrow> error + Decimal" where
  "Decimal_div a b = (if b = 0 then Inl NotFinite else Inr (a / b))"

text \<open>
  The first part of \<open>Pool.getTokenAmountsFromLiquidity\<close>: the two amounts as decimals, by the
  position of the current price against the range. A \<open>BN\<close> object is truthy whatever its
  value, so \<open>options.liquidity || new BN(100_000_000)\<close> takes the default only when the
  option is absent.
\<close>

definition liquidityAmounts :: "MathUtil \<Rightarrow> TokenAmountOptions \<Rightarrow> (error + Decimal) \<times> (error + Decimal)" where
  "liquidityAmounts math options =
     (let liquidity = (of_int (case liquidity options of None \<Rightarrow> 100000000 | Some l \<Rightarrow> l) :: Decimal);
          currentPrice = (of_int (currentSqrtPrice options) :: Decimal);
          lowerPrice = (of_int (lowerSqrtPrice options) :: Decimal);
          upperPrice = (of_int (upperSqrtPrice options) :: Decimal)
      in if currentSqrtPrice options < lowerSqrtPrice options then
           (Decimal_div (toX64_Decimal math liquidity * (upperPrice - lowerPrice))
              (lowerPrice * upperPrice),
            Inr 0)
         else if currentSqrtPrice options < upperSqrtPrice options then
           (Decimal_div (toX64_Decimal math liquidity * (upperPrice - currentPrice))
              (currentPrice * upperPrice),
            Inr (fromX64_Decimal math (liquidity * (currentPrice - lowerPrice))))
         else
           (Inr 0,
            Inr (fromX64_Decimal math (liquidity * (upperPrice - lowerPrice)))))"

text \<open>
  \<open>Pool.getTokenAmountsFromLiquidity\<close>: the amounts above, each rounded by \<open>ceil\<close> unless
  the option \<open>ceil\<close> is \<open>false\<close>, and read back as \<open>BN\<close>.
\<close>

definition getTokenAmountsFromLiquidity :: "MathUtil \<Rightarrow> TokenAmountOptions \<Rightarrow> error + (BN \<times> BN)" where
  "getTokenAmountsFromLiquidity math options =
     (let methodName = (if ceil options = Some False then floor else ceiling)
      in case liquidityAmounts math options of
           (Inr amountA, Inr amountB) \<Rightarrow> Inr (methodName amountA, methodName amountB)
         | (Inl e, _) \<Rightarrow> Inl e
         | (_, Inl e) \<Rightarrow> Inl e)"

section \<open>Coin selection\<close>

text \<open>
  A coin as the provider lists it. The balance is the decimal string of a \<open>u64\<close>, held as
  the 64-bit value it denotes.
\<close>

record CoinStruct =
  coinObjectId :: string
  balance :: "64 word"

record PaginatedCoins =
  data :: "CoinStruct list"
  nextCursor :: "string option"
  hasNextPage :: bool

text \<open>
  \<open>Number(balance)\<close>: the double nearest to the balance (ties to the even mantissa). Doubles
  carry 53 bits, so a balance below \<open>2 ^ 53\<close> is kept and a larger one is rounded to a multiple
  of \<open>2 ^ e\<close>, where \<open>e\<close> is its bit length less \<open>53\<close>. The value of the double is an integer.
\<close>

definition Number :: "64 word \<Rightarrow> nat" where
  "Number w =
     (let n = unat w
      in if n < 2 ^ 53 then n
         else
           let e = floorlog 2 n - 53; q = n div 2 ^ e; r = n mod 2 ^ e
           in if 2 * r < 2 ^ e \<or> (2 * r = 2 ^ e \<and> even q) then q * 2 ^ e
              else (q + 1) * 2 ^ e)"

text \<open>
  \<open>Array.prototype.sort\<close> with a comparator: the sort is stable, and for a comparator that
  orders consistently its result is the one stable sorted arrangement, computed here by
  insertion: an element goes in front of the first one it does not have to follow.
\<close>

fun insertSorted :: "('a \<Rightarrow> 'a \<Rightarrow> int) \<Rightarrow> 'a \<Rightarrow> 'a list \<Rightarrow> 'a list" where
  "insertSorted cmp x [] = [x]"
| "insertSorted cmp x (y # ys) =
     (if cmp x y \<le> 0 then x # y # ys else y # insertSorted cmp x ys)"

definition Array_sort :: "('a \<Rightarrow> 'a \<Rightarrow> int) \<Rightarrow> 'a list \<Rightarrow> 'a list" where
  "Array_sort cmp xs = foldr (insertSorted cmp) xs []"

text \<open>
  The sort of \<open>selectCoinIds\<close>, "from big to small". The difference of two doubles has the
  sign of the exact difference of their values, and only the sign is read.
\<close>

definition sortCoins :: "CoinStruct list \<Rightarrow> CoinStruct list" where
  "sortCoins coins =
     Array_sort (\<lambda>a b. int (Number (balance b)) - int (Number (balance a))) coins"

text \<open>
  The \<open>do ... while (result.hasNextPage)\<close> loop of \<open>selectCoinIds\<close>, over the answers of
  \<open>provider.getCoins\<close> in the order of the calls. The loop fails where the provider has no
  further answer.
\<close>

fun fetchCoins :: "PaginatedCoins list \<Rightarrow> CoinStruct list \<Rightarrow> error + CoinStruct list" where
  "fetchCoins [] coins = Inl ProviderFailed"
| "fetchCoins (result # later) coins =
     (if hasNextPage result then fetchCoins later (coins @ data result)
      else Inr (coins @ data result))"

text \<open>The \<open>for (const coin of coins)\<close> loop of \<open>selectCoinIds\<close>: push, add, then test.\<close>

fun accumulate :: "CoinStruct list \<Rightarrow> string list \<Rightarrow> Decimal \<Rightarrow> Decimal \<Rightarrow> string list" where
  "accumulate [] coinIds totalAmount needAmount = coinIds"
| "accumulate (coin # later) coinIds totalAmount needAmount =
     (if totalAmount + of_nat (unat (balance coin)) \<ge> needAmount
      then coinIds @ [coinObjectId coin]
      else accumulate later (coinIds @ [coinObjectId coin])
             (totalAmount + of_nat (unat (balance coin))) needAmount)"

text \<open>
  \<open>Pool.selectCoinIds\<close>. The owner and the coin type only travel to the provider, whose
  answers are the first argument.
\<close>

definition selectCoinIds :: "PaginatedCoins list \<Rightarrow> Decimal \<Rightarrow> error + string list" where
  "selectCoinIds responses needAmount =
     (case fetchCoins responses [] of
        Inl e \<Rightarrow> Inl e
      | Inr coins \<Rightarrow> Inr (accumulate (sortCoins coins) [] 0 needAmount))"

text \<open>The sum of the balances of a list of coins.\<close>

definition totalBalance :: "CoinStruct list \<Rightarrow> Decimal" where
  "totalBalance coins = (\<Sum>c\<leftarrow>coins. of_nat (unat (balance c)))"

section \<open>Properties of the slippage guard\<close>








section \<open>Properties of SUI detection\<close>


lemma isSUI_test_literals:
  "isSUI ''a::sui::SUI'' \<and> isSUI ''a.sui'' \<and> isSUI ''SUI'' \<and> isSUI ''sui'' \<and> isSUI ''suik''
   \<and> \<not> isSUI ''a::sbui'' \<and> \<not> isSUI ''a.su'' \<and> \<not> isSUI ''suki'' \<and> \<not> isSUI ''s ui''
   \<and> \<not> isSUI ''sometext''"
  by code_simp


section \<open>Properties of pool type parsing\<close>

lemma matchSegment_Some:
  assumes "matchSegment s = Some m"
  shows "isSegment m \<and> prefix m s"
proof -
  define w1 where "w1 = takeWhile isWordChar s"
  define r1 where "r1 = dropWhile isWordChar s"
  define w2 where "w2 = takeWhile isWordChar (drop 2 r1)"
  define r2 where "r2 = dropWhile isWordChar (drop 2 r1)"
  define w3 where "w3 = takeWhile isWordChar (drop 2 r2)"
  define r3 where "r3 = dropWhile isWordChar (drop 2 r2)"
  from assms have ne: "w1 \<noteq> []" "w2 \<noteq> []" "w3 \<noteq> []"
    and sep: "take 2 r1 = ''::''" "take 2 r2 = ''::''"
    and m: "m = w1 @ ''::'' @ w2 @ ''::'' @ w3"
    unfolding matchSegment_def Let_def w1_def r1_def w2_def r2_def w3_def
    by (auto split: if_splits)
  have words: "list_all isWordChar w1" "list_all isWordChar w2" "list_all isWordChar w3"
    unfolding w1_def w2_def w3_def by (auto simp: list_all_iff dest: set_takeWhileD)
  have "s = w1 @ r1" by (simp add: w1_def r1_def)
  also have "r1 = take 2 r1 @ drop 2 r1" by simp
  also have "drop 2 r1 = w2 @ r2" by (simp add: w2_def r2_def)
  also have "r2 = take 2 r2 @ drop 2 r2" by simp
  also have "drop 2 r2 = w3 @ r3" by (simp add: w3_def r3_def)
  finally have "s = m @ r3" by (simp add: m sep)
  then have "prefix m s" by (simp add: prefix_def)
  moreover have "isSegment m"
    unfolding isSegment_def using m ne words by blast
  ultimately show ?thesis by simp
qed

lemma matchAllFrom_segments:
  "m \<in> set (matchAllFrom k s) \<Longrightarrow> isSegment m \<and> sublist m s"
proof (induction k s rule: matchAllFrom.induct)
  case (1 skip)
  then show ?case by simp
next
  case (2 skip c cs)
  then show ?case by (auto simp: sublist_Cons_right)
next
  case (3 c cs)
  show ?case
  proof (cases "matchSegment (c # cs)")
    case None
    with 3 show ?thesis by (auto simp: sublist_Cons_right)
  next
    case (Some m')
    with 3 have "m = m' \<or> m \<in> set (matchAllFrom (length m' - 1) cs)" by auto
    then show ?thesis
    proof
      assume "m = m'"
      with Some matchSegment_Some [of "c # cs" m'] show ?thesis
        by (auto intro: prefix_imp_sublist)
    next
      assume "m \<in> set (matchAllFrom (length m' - 1) cs)"
      with 3 Some show ?thesis by (auto simp: sublist_Cons_right)
    qed
  qed
qed

lemma length4: "length xs = 4 \<Longrightarrow> \<exists>a b c d. xs = [a, b, c, d]"
  by (auto simp: length_Suc_conv numeral_eq_Suc)

text \<open>
  C7. Pool-type parsing either returns a triple \<open>(tokenA, tokenB, feeType)\<close> or fails with
  the invalid-pool-type error. It fails exactly when the global search does not find exactly
  four \<open>pkg::module::name\<close> segments in the type string. On success the triple is made of
  the second, third and fourth segment, and each component is a complete segment (three
  non-empty words joined by \<open>::\<close>) occurring in the type string: no component is partial.
  \<open>parsePoolType\<close> and the earlier \<open>getPoolTypeArguments\<close> agree.
\<close>

theorem parsePoolType_total:
  "(parsePoolType type = Inl InvalidPoolType \<longleftrightarrow> length (matchAllFrom 0 type) \<noteq> 4)
   \<and> ((\<exists>tokenA tokenB feeType. parsePoolType type = Inr (tokenA, tokenB, feeType))
        \<longleftrightarrow> length (matchAllFrom 0 type) = 4)
   \<and> (\<forall>tokenA tokenB feeType. parsePoolType type = Inr (tokenA, tokenB, feeType) \<longrightarrow>
        (\<exists>pool. matchAllFrom 0 type = [pool, tokenA, tokenB, feeType])
        \<and> isSegment tokenA \<and> isSegment tokenB \<and> isSegment feeType
        \<and> sublist tokenA type \<and> sublist tokenB type \<and> sublist feeType type)
   \<and> getPoolTypeArguments_001 type = parsePoolType type"
proof -
  have same: "getPoolTypeArguments_001 type = parsePoolType type"
    by (simp add: getPoolTypeArguments_001_def parsePoolType_def)
  have fail: "parsePoolType type = Inl InvalidPoolType \<longleftrightarrow> length (matchAllFrom 0 type) \<noteq> 4"
    by (auto simp: parsePoolType_def String_match_def split: list.splits)
  have ok: "(\<exists>a b c. parsePoolType type = Inr (a, b, c)) \<longleftrightarrow> length (matchAllFrom 0 type) = 4"
    by (auto simp: parsePoolType_def String_match_def split: list.splits)
  have shape: "(\<exists>pool. matchAllFrom 0 type = [pool, a, b, c])
        \<and> isSegment a \<and> isSegment b \<and> isSegment c
        \<and> sublist a type \<and> sublist b type \<and> sublist c type"
    if r: "parsePoolType type = Inr (a, b, c)" for a b c
  proof -
    from r ok have "length (matchAllFrom 0 type) = 4" by blast
    then obtain p x y z where ms: "matchAllFrom 0 type = [p, x, y, z]"
      using length4 by blast
    with r have "a = x" "b = y" "c = z"
      by (simp_all add: parsePoolType_def String_match_def)
    with ms have ms': "matchAllFrom 0 type = [p, a, b, c]" by simp
    then have "a \<in> set (matchAllFrom 0 type)" "b \<in> set (matchAllFrom 0 type)"
      "c \<in> set (matchAllFrom 0 type)" by simp_all
    with matchAllFrom_segments ms' show ?thesis by blast
  qed
  from same fail ok shape show ?thesis by blast
qed

theorem parsePoolType_total_witness:
  "parsePoolType ''0xa::pool::Pool<0x2::sui::SUI, 0xb::usdc::USDC, 0xa::fee3000bps::FEE3000BPS>''
     = Inr (''0x2::sui::SUI'', ''0xb::usdc::USDC'', ''0xa::fee3000bps::FEE3000BPS'')
   \<and> isSegment ''0x2::sui::SUI'' \<and> isSegment ''0xb::usdc::USDC''
   \<and> isSegment ''0xa::fee3000bps::FEE3000BPS''
   \<and> sublist ''0xb::usdc::USDC''
        ''0xa::pool::Pool<0x2::sui::SUI, 0xb::usdc::USDC, 0xa::fee3000bps::FEE3000BPS>''
   \<and> parsePoolType ''0x2::sui::SUI'' = Inl InvalidPoolType
   \<and> length (matchAllFrom 0 ''0x2::sui::SUI'') \<noteq> 4"
proof -
  have parsed:
    "parsePoolType ''0xa::pool::Pool<0x2::sui::SUI, 0xb::usdc::USDC, 0xa::fee3000bps::FEE3000BPS>''
       = Inr (''0x2::sui::SUI'', ''0xb::usdc::USDC'', ''0xa::fee3000bps::FEE3000BPS'')"
    by code_simp
  have failed: "length (matchAllFrom 0 ''0x2::sui::SUI'') \<noteq> 4"
    by code_simp
  from parsed failed
    parsePoolType_total
      [of "''0xa::pool::Pool<0x2::sui::SUI, 0xb::usdc::USDC, 0xa::fee3000bps::FEE3000BPS>''"]
    parsePoolType_total [of "''0x2::sui::SUI''"]
  show ?thesis by blast
qed

section \<open>Properties of tick snapping\<close>

lemma spec_tick_just_below_one:
  "spec_priceToTickIndex (19999 / 20000) 6 6 = Inr (- 1)"
proof -
  let ?x = "ln (19999 / 20000 :: real) / ln (10001 / 10000)"
  have pos: "0 < ln (10001 / 10000 :: real)" by simp
  have neg: "ln (19999 / 20000 :: real) < 0" by simp
  have up: "?x < 0" by (rule divide_neg_pos [OF neg pos])
  have "ln (10000 / 10001 :: real) \<le> ln (19999 / 20000)"
    by (subst ln_le_cancel_iff) simp_all
  moreover have "ln (10000 / 10001 :: real) = - ln (10001 / 10000)"
    by (simp add: ln_div)
  ultimately have "- ln (10001 / 10000 :: real) \<le> ln (19999 / 20000)" by simp
  then have low: "- 1 \<le> ?x" using pos by (simp add: pos_le_divide_eq)
  have "\<lfloor>?x\<rfloor> = - 1"
    using low up by (intro floor_unique) simp_all
  then show ?thesis
    by (simp add: spec_priceToTickIndex_def of_rat_divide)
qed

text \<open>
  C5, as the code has it. For every tick index derived from the price and every positive
  tick spacing, \<open>getTickIndex\<close> returns a tick \<open>r\<close> with \<open>r % tickSpacing = 0\<close> that is the
  derived tick snapped toward zero: the multiple of the spacing of largest magnitude between
  zero and the tick (\<open>r = tickSpacing * trunc(tick / tickSpacing)\<close>). For a tick that is not
  negative this is the multiple below it (snapping down); for a negative tick off the grid it
  is the multiple above it; a tick on the grid is kept.
\<close>

theorem getTickIndex_toward_zero:
  assumes "priceToTickIndex math price (decimals coinA) (decimals coinB) = Inr t"
    and "0 < tickSpacing fee"
  shows "\<exists>r. getTickIndex math price coinA coinB fee = Inr (Tick r)
     \<and> r smod tickSpacing fee = 0
     \<and> r = tickSpacing fee * (t sdiv tickSpacing fee)
     \<and> \<bar>r\<bar> \<le> \<bar>t\<bar> \<and> \<bar>t - r\<bar> < tickSpacing fee
     \<and> (0 \<le> t \<longrightarrow> r = tickSpacing fee * (t div tickSpacing fee))
     \<and> (t < 0 \<longrightarrow> r = - (tickSpacing fee * ((- t) div tickSpacing fee)))
     \<and> (t < 0 \<and> \<not> tickSpacing fee dvd t \<longrightarrow> r = tickSpacing fee * (t div tickSpacing fee) + tickSpacing fee)
     \<and> (tickSpacing fee dvd t \<longrightarrow> r = t)"
proof -
  define s where "s = tickSpacing fee"
  define r where "r = t - t smod s"
  have s: "0 < s" using assms(2) by (simp add: s_def)
  have res: "getTickIndex math price coinA coinB fee = Inr (Tick r)"
    using assms by (simp add: getTickIndex_def r_def s_def)
  have mult: "r = s * (t sdiv s)"
    unfolding r_def by (rule minus_smod_eq_mult_sdiv)
  have rem0: "r smod s = 0"
    using s by (simp add: mult smod_int_alt_def abs_mult)
  have nonneg: "r = s * (t div s)" if "0 \<le> t"
    using that s by (simp add: r_def smod_int_alt_def sgn_if minus_mod_eq_mult_div)
  have negative: "r = - (s * ((- t) div s))" if "t < 0"
  proof -
    have "r = t + (- t) mod s" using that s by (simp add: r_def smod_int_alt_def sgn_if)
    also have "\<dots> = - ((- t) - (- t) mod s)" by simp
    also have "(- t) - (- t) mod s = s * ((- t) div s)" by (rule minus_mod_eq_mult_div)
    finally show ?thesis .
  qed
  have bound: "\<bar>r\<bar> \<le> \<bar>t\<bar> \<and> \<bar>t - r\<bar> < s"
  proof (cases "0 \<le> t")
    case True
    then have "t smod s = t mod s" using s by (simp add: smod_int_alt_def sgn_if)
    moreover have "0 \<le> t mod s" "t mod s < s" "t mod s \<le> t"
      using s True by (simp_all add: zmod_le_nonneg_dividend)
    ultimately show ?thesis using True by (simp add: r_def)
  next
    case False
    then have "t smod s = - ((- t) mod s)" using s by (simp add: smod_int_alt_def sgn_if)
    moreover have "0 \<le> (- t) mod s" "(- t) mod s < s" "(- t) mod s \<le> - t"
      using s False by (simp_all add: zmod_le_nonneg_dividend)
    ultimately show ?thesis using False by (simp add: r_def)
  qed
  have above: "r = s * (t div s) + s" if "t < 0" "\<not> s dvd t"
  proof -
    have "(- t) div s = - (t div s) - 1"
      using that s by (simp add: zdiv_zminus1_eq_if dvd_eq_mod_eq_0)
    with negative [OF that(1)] show ?thesis by (simp add: algebra_simps)
  qed
  have same: "r = t" if "s dvd t"
    using that by (auto simp: r_def smod_int_alt_def)
  from res rem0 mult bound nonneg negative above same show ?thesis
    unfolding s_def by blast
qed

theorem getTickIndex_toward_zero_witness:
  "priceToTickIndex spec_math (19999 / 20000)
       (decimals \<lparr>decimals = 6\<rparr>) (decimals \<lparr>decimals = 6\<rparr>) = Inr (- 1)
   \<and> 0 < tickSpacing \<lparr>fee_type = ''fee'', objectId = ''0x1'', tickSpacing = 2\<rparr>
   \<and> getTickIndex spec_math (19999 / 20000) \<lparr>decimals = 6\<rparr> \<lparr>decimals = 6\<rparr>
        \<lparr>fee_type = ''fee'', objectId = ''0x1'', tickSpacing = 2\<rparr> = Inr (Tick 0)"
proof -
  have derived: "priceToTickIndex spec_math (19999 / 20000)
       (decimals \<lparr>decimals = 6\<rparr>) (decimals \<lparr>decimals = 6\<rparr>) = Inr (- 1)"
    by (simp add: spec_math_def spec_tick_just_below_one)
  have spacing: "0 < tickSpacing \<lparr>fee_type = ''fee'', objectId = ''0x1'', tickSpacing = 2\<rparr>"
    by simp
  from getTickIndex_toward_zero [OF derived spacing] derived spacing
  show ?thesis by (auto simp: smod_int_alt_def)
qed

text \<open>
  The claim as worded (snapping down) fails on a negative tick off the grid. The price
  \<open>0.99995\<close> with equal decimals derives the tick \<open>-1\<close>; with spacing \<open>2\<close> the remainder
  \<open>-1 % 2\<close> is \<open>-1\<close> and \<open>getTickIndex\<close> returns \<open>0\<close>, which lies above the tick, where
  snapping down gives \<open>-2\<close>.
\<close>

theorem getTickIndex_not_snapped_down:
  "spec_priceToTickIndex (19999 / 20000) 6 6 = Inr (- 1)
   \<and> getTickIndex spec_math (19999 / 20000) \<lparr>decimals = 6\<rparr> \<lparr>decimals = 6\<rparr>
        \<lparr>fee_type = ''fee'', objectId = ''0x1'', tickSpacing = 2\<rparr> = Inr (Tick 0)
   \<and> getTickIndex spec_math (19999 / 20000) \<lparr>decimals = 6\<rparr> \<lparr>decimals = 6\<rparr>
        \<lparr>fee_type = ''fee'', objectId = ''0x1'', tickSpacing = 2\<rparr>
       \<noteq> Inr (Tick (2 * (- 1 div 2)))
   \<and> \<not> (0::int) \<le> - 1"
  by (simp add: getTickIndex_def spec_math_def spec_tick_just_below_one smod_int_alt_def)

section \<open>Properties of the token amounts\<close>

lemma floor_rat_numeral: "\<lfloor>numeral a / numeral b :: rat\<rfloor> = numeral a div numeral b"
  by (metis floor_divide_of_int_eq of_int_numeral)

lemma ceiling_rat_numeral: "\<lceil>numeral a / numeral b :: rat\<rceil> = - (- numeral a div numeral b)"
  unfolding ceiling_def
  by (metis floor_divide_of_int_eq minus_divide_left of_int_minus of_int_numeral)

lemma liquidityAmounts_ceil_update [simp]:
  "liquidityAmounts math (options\<lparr>ceil := c\<rparr>) = liquidityAmounts math options"
  by (simp add: liquidityAmounts_def Let_def cong: if_cong)



lemma getTokenAmountsFromLiquidity_example:
  "getTokenAmountsFromLiquidity spec_math
     \<lparr>currentSqrtPrice = 3 * 2 ^ 63, lowerSqrtPrice = 2 ^ 64, upperSqrtPrice = 2 ^ 65,
      liquidity = None, ceil = None\<rparr> = Inr (16666667, 50000000)"
  by (simp add: getTokenAmountsFromLiquidity_def liquidityAmounts_def Decimal_div_def Let_def
      spec_math_def spec_toX64_Decimal_def spec_fromX64_Decimal_def ceiling_rat_numeral)

lemma getTokenAmountsFromLiquidity_example_floor:
  "getTokenAmountsFromLiquidity spec_math
     \<lparr>currentSqrtPrice = 3 * 2 ^ 63, lowerSqrtPrice = 2 ^ 64, upperSqrtPrice = 2 ^ 65,
      liquidity = None, ceil = Some False\<rparr> = Inr (16666666, 50000000)"
  by (simp add: getTokenAmountsFromLiquidity_def liquidityAmounts_def Decimal_div_def Let_def
      spec_math_def spec_toX64_Decimal_def spec_fromX64_Decimal_def floor_rat_numeral)



section \<open>Properties of the price conversions\<close>

lemma effective_ratio_mono:
  assumes "0 < price1" and "price1 < price2"
  shows "0 < real_of_rat price1 * 10 powr real_of_int k"
    and "real_of_rat price1 * 10 powr real_of_int k < real_of_rat price2 * 10 powr real_of_int k"
proof -
  have scale: "0 < (10::real) powr real_of_int k" by simp
  from assms(1) have "0 < real_of_rat price1" by simp
  then show "0 < real_of_rat price1 * 10 powr real_of_int k" using scale by (rule mult_pos_pos)
  from assms(2) have "real_of_rat price1 < real_of_rat price2" by (simp add: of_rat_less)
  then show "real_of_rat price1 * 10 powr real_of_int k < real_of_rat price2 * 10 powr real_of_int k"
    using scale by (simp only: mult_less_cancel_right_pos)
qed

text \<open>
  C8. For positive prices \<open>price1 < price2\<close> and fixed decimals, both conversions succeed
  on both prices, the tick index of \<open>price1\<close> is at most that of \<open>price2\<close>, and likewise the
  sqrt price. The conversions are the ones modelled from the specification.
\<close>

theorem spec_price_conversions_monotone:
  assumes "0 < price1" and "price1 < price2"
  shows "\<exists>t1 t2 s1 s2.
      spec_priceToTickIndex price1 decimalsA decimalsB = Inr t1
    \<and> spec_priceToTickIndex price2 decimalsA decimalsB = Inr t2
    \<and> t1 \<le> t2
    \<and> spec_priceToSqrtPriceX64 price1 decimalsA decimalsB = Inr s1
    \<and> spec_priceToSqrtPriceX64 price2 decimalsA decimalsB = Inr s2
    \<and> s1 \<le> s2"
proof -
  define r1 where "r1 = real_of_rat price1 * 10 powr real_of_int (decimalsB - decimalsA)"
  define r2 where "r2 = real_of_rat price2 * 10 powr real_of_int (decimalsB - decimalsA)"
  have pos: "0 < r1" and less: "r1 < r2"
    unfolding r1_def r2_def using effective_ratio_mono [OF assms] by blast+
  have p: "\<not> price1 \<le> 0" "\<not> price2 \<le> 0" using assms by simp_all
  have "ln r1 \<le> ln r2" using pos less by simp
  moreover have "0 < ln (10001 / 10000 :: real)" by simp
  ultimately have "ln r1 / ln (10001 / 10000) \<le> ln r2 / ln (10001 / 10000)"
    by (simp add: divide_right_mono)
  then have ticks: "\<lfloor>ln r1 / ln (10001 / 10000)\<rfloor> \<le> \<lfloor>ln r2 / ln (10001 / 10000)\<rfloor>"
    by (rule floor_mono)
  have "sqrt r1 \<le> sqrt r2" using less by simp
  then have "sqrt r1 * 2 ^ 64 \<le> sqrt r2 * 2 ^ 64" by simp
  then have roots: "\<lfloor>sqrt r1 * 2 ^ 64\<rfloor> \<le> \<lfloor>sqrt r2 * 2 ^ 64\<rfloor>"
    by (rule floor_mono)
  show ?thesis
    using ticks roots p
    by (simp add: spec_priceToTickIndex_def spec_priceToSqrtPriceX64_def r1_def r2_def)
qed

lemma spec_tick_at_one: "spec_priceToTickIndex 1 6 6 = Inr 0"
  by (simp add: spec_priceToTickIndex_def)

lemma spec_sqrt_at_one: "spec_priceToSqrtPriceX64 1 6 6 = Inr (2 ^ 64)"
  by (simp add: spec_priceToSqrtPriceX64_def)

lemma spec_sqrt_at_four: "spec_priceToSqrtPriceX64 4 6 6 = Inr (2 ^ 65)"
  by (simp add: spec_priceToSqrtPriceX64_def)

lemma spec_sqrt_decimals: "spec_priceToSqrtPriceX64 1 6 8 = Inr (10 * 2 ^ 64)"
  by (simp add: spec_priceToSqrtPriceX64_def powr_numeral)

theorem spec_price_conversions_monotone_witness:
  "(0::rat) < 19999 / 20000 \<and> (19999 / 20000 :: rat) < 1
   \<and> spec_priceToTickIndex (19999 / 20000) 6 6 = Inr (- 1)
   \<and> spec_priceToTickIndex 1 6 6 = Inr 0
   \<and> (\<exists>s1. spec_priceToSqrtPriceX64 (19999 / 20000) 6 6 = Inr s1 \<and> s1 \<le> 2 ^ 64)
   \<and> spec_priceToSqrtPriceX64 1 6 6 = Inr (2 ^ 64)"
proof -
  have lt: "(0::rat) < 19999 / 20000" "(19999 / 20000 :: rat) < 1" by simp_all
  from spec_price_conversions_monotone [OF lt, of 6 6]
  obtain s1 s2 where "spec_priceToSqrtPriceX64 (19999 / 20000) 6 6 = Inr s1"
    and "spec_priceToSqrtPriceX64 1 6 6 = Inr s2" and "s1 \<le> s2"
    by blast
  with spec_sqrt_at_one
  have "\<exists>s1. spec_priceToSqrtPriceX64 (19999 / 20000) 6 6 = Inr s1 \<and> s1 \<le> 2 ^ 64"
    by auto
  with lt spec_tick_just_below_one spec_tick_at_one spec_sqrt_at_one
  show ?thesis by blast
qed

section \<open>Properties of coin selection\<close>

lemma insertSorted_insort_key:
  "insertSorted (\<lambda>a b. int (Number (balance b)) - int (Number (balance a))) x ys
     = insort_key (\<lambda>c. - int (Number (balance c))) x ys"
  by (induction ys) simp_all

lemma sortCoins_sort_key:
  "sortCoins coins = sort_key (\<lambda>c. - int (Number (balance c))) coins"
  by (induction coins) (simp_all add: sortCoins_def Array_sort_def sort_key_def insertSorted_insort_key)

lemma mset_sortCoins: "mset (sortCoins coins) = mset coins"
  by (simp add: sortCoins_sort_key)

lemma set_sortCoins: "set (sortCoins coins) = set coins"
  by (simp add: sortCoins_sort_key)

lemma length_sortCoins: "length (sortCoins coins) = length coins"
  by (simp add: sortCoins_sort_key)

lemma sortCoins_by_Number:
  "sorted_wrt (\<lambda>a b. Number (balance b) \<le> Number (balance a)) (sortCoins coins)"
proof -
  have "sorted (map (\<lambda>c. - int (Number (balance c))) (sortCoins coins))"
    unfolding sortCoins_sort_key by (rule sorted_sort_key)
  then show ?thesis by (simp add: sorted_map)
qed

lemma sortCoins_stable_Number:
  "filter (\<lambda>c. Number (balance c) = n) (sortCoins coins) = filter (\<lambda>c. Number (balance c) = n) coins"
  using sort_key_stable [of "\<lambda>c. - int (Number (balance c))" "- int n" coins]
  by (simp add: sortCoins_sort_key)

lemma Number_exact: "unat w < 2 ^ 53 \<Longrightarrow> Number w = unat w"
  by (simp add: Number_def)

lemma sortCoins_descending:
  assumes "\<forall>c\<in>set coins. unat (balance c) < 2 ^ 53"
  shows "sorted_wrt (\<lambda>a b. balance b \<le> balance a) (sortCoins coins)"
proof -
  have "sorted_wrt (\<lambda>a b. Number (balance b) \<le> Number (balance a)) (sortCoins coins)"
    by (rule sortCoins_by_Number)
  then show ?thesis
  proof (rule sorted_wrt_mono_rel [rotated])
    fix a b
    assume "a \<in> set (sortCoins coins)" "b \<in> set (sortCoins coins)"
      and "Number (balance b) \<le> Number (balance a)"
    with assms show "balance b \<le> balance a"
      by (simp add: set_sortCoins Number_exact word_le_nat_alt)
  qed
qed

lemma sortCoins_stable:
  assumes "\<forall>c\<in>set coins. unat (balance c) < 2 ^ 53"
  shows "filter (\<lambda>c. balance c = v) (sortCoins coins) = filter (\<lambda>c. balance c = v) coins"
proof (cases "unat v < 2 ^ 53")
  case True
  have "filter (\<lambda>c. balance c = v) (sortCoins coins)
      = filter (\<lambda>c. Number (balance c) = unat v) (sortCoins coins)"
    using assms True by (intro filter_cong) (auto simp: set_sortCoins Number_exact word_unat_eq_iff)
  also have "\<dots> = filter (\<lambda>c. Number (balance c) = unat v) coins"
    by (rule sortCoins_stable_Number)
  also have "\<dots> = filter (\<lambda>c. balance c = v) coins"
    using assms True by (intro filter_cong) (auto simp: Number_exact word_unat_eq_iff)
  finally show ?thesis .
next
  case False
  with assms have "\<forall>c\<in>set coins. balance c \<noteq> v" by auto
  then show ?thesis by (simp add: set_sortCoins filter_False [unfolded Ball_def] )
qed

lemma unsigned_rat_nonneg [simp]: "0 \<le> (unsigned w :: rat)"
  using of_nat_0_le_iff [of "unat w", where ?'a = rat] by (simp only: of_nat_unat)

lemma totalBalance_simps [simp]:
  "totalBalance [] = 0"
  "totalBalance (c # cs) = of_nat (unat (balance c)) + totalBalance cs"
  by (simp_all add: totalBalance_def)

lemma totalBalance_nonneg: "0 \<le> totalBalance cs"
proof (induction cs)
  case Nil
  show ?case by (simp only: totalBalance_simps order_refl)
next
  case (Cons c cs)
  have "0 \<le> (of_nat (unat (balance c)) :: rat)" by (rule of_nat_0_le_iff)
  from add_nonneg_nonneg [OF this Cons] show ?case by (simp only: totalBalance_simps)
qed

lemma totalBalance_take_le: "totalBalance (take k cs) \<le> totalBalance cs"
proof (induction cs arbitrary: k)
  case Nil
  show ?case by simp
next
  case (Cons c cs)
  show ?case
  proof (cases k)
    case 0
    then show ?thesis using totalBalance_nonneg [of "c # cs"] by simp
  next
    case (Suc j)
    with Cons [of j] show ?thesis by simp
  qed
qed

lemma totalBalance_mset: "mset xs = mset ys \<Longrightarrow> totalBalance xs = totalBalance ys"
  unfolding totalBalance_def
  by (metis mset_map sum_mset_sum_list)

lemma accumulate_prefix:
  "\<exists>k\<le>length xs.
      accumulate xs ids totalAmount needAmount = ids @ map coinObjectId (take k xs)
    \<and> (xs \<noteq> [] \<longrightarrow> 0 < k)
    \<and> (\<forall>j. 0 < j \<and> j < k \<longrightarrow> totalAmount + totalBalance (take j xs) < needAmount)
    \<and> (k < length xs \<longrightarrow> needAmount \<le> totalAmount + totalBalance (take k xs))"
proof (induction xs arbitrary: ids totalAmount)
  case Nil
  show ?case by simp
next
  case (Cons coin later)
  show ?case
  proof (cases "needAmount \<le> totalAmount + of_nat (unat (balance coin))")
    case True
    then show ?thesis by (intro exI [of _ 1]) simp
  next
    case False
    from Cons [of "ids @ [coinObjectId coin]" "totalAmount + of_nat (unat (balance coin))"]
    obtain k where k: "k \<le> length later"
      and res: "accumulate later (ids @ [coinObjectId coin]) (totalAmount + of_nat (unat (balance coin))) needAmount
          = (ids @ [coinObjectId coin]) @ map coinObjectId (take k later)"
      and below: "\<forall>j. 0 < j \<and> j < k \<longrightarrow>
          totalAmount + of_nat (unat (balance coin)) + totalBalance (take j later) < needAmount"
      and reach: "k < length later \<longrightarrow>
          needAmount \<le> totalAmount + of_nat (unat (balance coin)) + totalBalance (take k later)"
      by blast
    have below': "totalAmount + totalBalance (take j (coin # later)) < needAmount" if "0 < j" "j < Suc k" for j
    proof (cases j)
      case 0
      with that show ?thesis by simp
    next
      case (Suc i)
      show ?thesis
      proof (cases "i = 0")
        case True
        with Suc False show ?thesis by simp
      next
        case nz: False
        with Suc that below have "totalAmount + of_nat (unat (balance coin)) + totalBalance (take i later) < needAmount"
          by simp
        with Suc show ?thesis by (simp add: add.assoc)
      qed
    qed
    show ?thesis
      using False k res reach below'
      by (intro exI [of _ "Suc k"]) (simp add: add.assoc)
  qed
qed


lemma fetchCoins_pages:
  assumes "\<forall>p\<in>set earlier. hasNextPage p" and "\<not> hasNextPage lastPage"
  shows "fetchCoins (earlier @ [lastPage]) coins
    = Inr (coins @ concat (map data (earlier @ [lastPage])))"
  using assms by (induction earlier arbitrary: coins) simp_all

lemma fetchCoins_single:
  "fetchCoins [\<lparr>data = coins, nextCursor = c, hasNextPage = False\<rparr>] [] = Inr coins"
  by simp

text \<open>
  C1, as the code has it. Let the provider have answered with the coin records \<open>coins\<close>,
  every balance below \<open>2 ^ 53\<close>, and let the target be positive. Then \<open>selectCoinIds\<close>
  returns, without an error, the ids of a prefix of the records sorted by descending balance
  with ties in arrival order (a stable sort: the sorted list is a rearrangement of the records
  that keeps the order of the records of each balance). Every proper prefix of the selection,
  in particular all of it but the last record, sums to strictly less than the target. If the
  balances together reach the target, the selection sums to at least the target; if not, the
  selection is the whole sorted list.
\<close>

theorem selectCoinIds_minimal_prefix:
  assumes fetched: "fetchCoins responses [] = Inr coins"
    and small: "\<forall>c\<in>set coins. unat (balance c) < 2 ^ 53"
    and positive: "0 < needAmount"
  shows "\<exists>k\<le>length coins.
      selectCoinIds responses needAmount = Inr (map coinObjectId (take k (sortCoins coins)))
    \<and> mset (sortCoins coins) = mset coins
    \<and> sorted_wrt (\<lambda>a b. balance b \<le> balance a) (sortCoins coins)
    \<and> (\<forall>v. filter (\<lambda>c. balance c = v) (sortCoins coins) = filter (\<lambda>c. balance c = v) coins)
    \<and> (\<forall>j<k. totalBalance (take j (sortCoins coins)) < needAmount)
    \<and> totalBalance (butlast (take k (sortCoins coins))) < needAmount
    \<and> (if needAmount \<le> totalBalance coins
        then needAmount \<le> totalBalance (take k (sortCoins coins))
        else take k (sortCoins coins) = sortCoins coins)"
proof -
  let ?s = "sortCoins coins"
  from accumulate_prefix [of ?s "[]" 0 needAmount]
  obtain k where k: "k \<le> length ?s"
    and res: "accumulate ?s [] 0 needAmount = map coinObjectId (take k ?s)"
    and below: "\<forall>j. 0 < j \<and> j < k \<longrightarrow> totalBalance (take j ?s) < needAmount"
    and reach: "k < length ?s \<longrightarrow> needAmount \<le> totalBalance (take k ?s)"
    by auto
  have sel: "selectCoinIds responses needAmount = Inr (map coinObjectId (take k ?s))"
    by (simp add: selectCoinIds_def fetched res)
  have all_below: "totalBalance (take j ?s) < needAmount" if "j < k" for j
  proof (cases "j = 0")
    case True
    with positive show ?thesis by simp
  next
    case False
    with that below show ?thesis by simp
  qed
  have but: "totalBalance (butlast (take k ?s)) < needAmount"
  proof (cases "k = 0")
    case True
    with positive show ?thesis by simp
  next
    case False
    then have "k - 1 < k" by simp
    then have "totalBalance (take (k - 1) ?s) < needAmount" by (rule all_below)
    with k show ?thesis by (simp add: butlast_take)
  qed
  have whole: "totalBalance ?s = totalBalance coins"
    by (rule totalBalance_mset) (rule mset_sortCoins)
  have cover: "needAmount \<le> totalBalance (take k ?s)" if "needAmount \<le> totalBalance coins"
  proof (cases "k < length ?s")
    case True
    with reach show ?thesis by simp
  next
    case False
    with k have "take k ?s = ?s" by simp
    with that whole show ?thesis by simp
  qed
  have exhausted: "take k ?s = ?s" if "\<not> needAmount \<le> totalBalance coins"
  proof (rule ccontr)
    assume "take k ?s \<noteq> ?s"
    then have "k < length ?s" by (auto simp: not_le [symmetric])
    with reach have "needAmount \<le> totalBalance (take k ?s)" by simp
    also have "\<dots> \<le> totalBalance ?s" by (rule totalBalance_take_le)
    finally show False using that whole by simp
  qed
  from k have "k \<le> length coins" by (simp add: length_sortCoins)
  with sel all_below but cover exhausted
    mset_sortCoins [of coins] sortCoins_descending [OF small] sortCoins_stable [OF small]
  show ?thesis by (intro exI [of _ k]) auto
qed

lemma sortCoins_scenario:
  "sortCoins [\<lparr>coinObjectId = ''A'', balance = 30\<rparr>, \<lparr>coinObjectId = ''B'', balance = 50\<rparr>,
              \<lparr>coinObjectId = ''C'', balance = 20\<rparr>]
   = [\<lparr>coinObjectId = ''B'', balance = 50\<rparr>, \<lparr>coinObjectId = ''A'', balance = 30\<rparr>,
      \<lparr>coinObjectId = ''C'', balance = 20\<rparr>]"
  by (simp add: sortCoins_def Array_sort_def Number_def)

lemma selectCoinIds_scenario:
  "selectCoinIds [\<lparr>data = [\<lparr>coinObjectId = ''A'', balance = 30\<rparr>, \<lparr>coinObjectId = ''B'', balance = 50\<rparr>,
              \<lparr>coinObjectId = ''C'', balance = 20\<rparr>], nextCursor = None, hasNextPage = False\<rparr>] 60
   = Inr [''B'', ''A'']"
  by (simp add: selectCoinIds_def sortCoins_scenario)

lemma selectCoinIds_scenario_zero:
  "selectCoinIds [\<lparr>data = [\<lparr>coinObjectId = ''A'', balance = 30\<rparr>, \<lparr>coinObjectId = ''B'', balance = 50\<rparr>,
              \<lparr>coinObjectId = ''C'', balance = 20\<rparr>], nextCursor = None, hasNextPage = False\<rparr>] 0
   = Inr [''B'']"
  by (simp add: selectCoinIds_def sortCoins_scenario)

lemma Number_big:
  "Number 9007199254740992 = 9007199254740992"
  "Number 9007199254740993 = 9007199254740992"
  by (simp_all add: Number_def compute_floorlog Let_def)


theorem selectCoinIds_minimal_prefix_witness:
  "fetchCoins [\<lparr>data = [\<lparr>coinObjectId = ''A'', balance = 30\<rparr>, \<lparr>coinObjectId = ''B'', balance = 50\<rparr>,
              \<lparr>coinObjectId = ''C'', balance = 20\<rparr>], nextCursor = None, hasNextPage = False\<rparr>] []
     = Inr [\<lparr>coinObjectId = ''A'', balance = 30\<rparr>, \<lparr>coinObjectId = ''B'', balance = 50\<rparr>,
              \<lparr>coinObjectId = ''C'', balance = 20\<rparr>]
   \<and> (0::rat) < 60
   \<and> selectCoinIds [\<lparr>data = [\<lparr>coinObjectId = ''A'', balance = 30\<rparr>, \<lparr>coinObjectId = ''B'', balance = 50\<rparr>,
              \<lparr>coinObjectId = ''C'', balance = 20\<rparr>], nextCursor = None, hasNextPage = False\<rparr>] 60
     = Inr [''B'', ''A'']
   \<and> (\<exists>k\<le>3. [''B'', ''A''] = map coinObjectId (take k
          [\<lparr>coinObjectId = ''B'', balance = 50\<rparr>, \<lparr>coinObjectId = ''A'', balance = 30\<rparr>,
           \<lparr>coinObjectId = ''C'', balance = 20\<rparr>]))"
proof -
  let ?coins = "[\<lparr>coinObjectId = ''A'', balance = 30\<rparr>, \<lparr>coinObjectId = ''B'', balance = 50\<rparr>,
              \<lparr>coinObjectId = ''C'', balance = 20\<rparr>]"
  let ?responses = "[\<lparr>data = ?coins, nextCursor = None, hasNextPage = False\<rparr>]"
  have fetched: "fetchCoins ?responses [] = Inr ?coins" by simp
  have small: "\<forall>c\<in>set ?coins. unat (balance c) < 2 ^ 53" by simp
  have positive: "(0::rat) < 60" by simp
  from selectCoinIds_minimal_prefix [OF fetched small positive]
  obtain k where k: "k \<le> length ?coins"
    and sel: "selectCoinIds ?responses 60 = Inr (map coinObjectId (take k (sortCoins ?coins)))"
    by blast
  from sel have "[''B'', ''A''] = map coinObjectId (take k
          [\<lparr>coinObjectId = ''B'', balance = 50\<rparr>, \<lparr>coinObjectId = ''A'', balance = 30\<rparr>,
           \<lparr>coinObjectId = ''C'', balance = 20\<rparr>])"
    by (simp only: selectCoinIds_scenario sortCoins_scenario sum.inject)
  moreover from k have "k \<le> 3" by simp
  ultimately have prefix: "\<exists>k\<le>3. [''B'', ''A''] = map coinObjectId (take k
          [\<lparr>coinObjectId = ''B'', balance = 50\<rparr>, \<lparr>coinObjectId = ''A'', balance = 30\<rparr>,
           \<lparr>coinObjectId = ''C'', balance = 20\<rparr>])"
    by (intro exI [of _ k] conjI)
  show ?thesis
    by (intro conjI fetched positive selectCoinIds_scenario prefix)
qed

text \<open>
  Beyond \<open>2 ^ 53\<close> the comparator no longer tells balances apart: \<open>2 ^ 53\<close> and
  \<open>2 ^ 53 + 1\<close> are the same double, so the records stay in arrival order, and both are
  selected where the larger one alone covers the target.
\<close>

lemma selectCoinIds_large_balances:
  "selectCoinIds [\<lparr>data = [\<lparr>coinObjectId = ''A'', balance = 2 ^ 53\<rparr>,
                           \<lparr>coinObjectId = ''B'', balance = 2 ^ 53 + 1\<rparr>],
                   nextCursor = None, hasNextPage = False\<rparr>] (2 ^ 53 + 1)
     = Inr [''A'', ''B'']"
  by (simp add: selectCoinIds_def sortCoins_def Array_sort_def Number_big)

text \<open>
  The claim as worded fails in two ways. For the target zero, on the records
  \<open>A(30), B(50), C(20)\<close>, the loop pushes \<open>B\<close> before it tests the sum, so \<open>[B]\<close> is
  returned; all of the selection but its last record is empty, and its sum \<open>0\<close> is not
  strictly less than the target \<open>0\<close>. And for the balances \<open>2 ^ 53\<close> and \<open>2 ^ 53 + 1\<close> the
  records returned are not in descending order of balance.
\<close>

theorem selectCoinIds_zero_target_selects_one:
  "selectCoinIds [\<lparr>data = [\<lparr>coinObjectId = ''A'', balance = 30\<rparr>, \<lparr>coinObjectId = ''B'', balance = 50\<rparr>,
              \<lparr>coinObjectId = ''C'', balance = 20\<rparr>], nextCursor = None, hasNextPage = False\<rparr>] 0
     = Inr (map coinObjectId [\<lparr>coinObjectId = ''B'', balance = 50\<rparr>])
   \<and> \<not> totalBalance (butlast [\<lparr>coinObjectId = ''B'', balance = 50\<rparr>]) < 0
   \<and> selectCoinIds [\<lparr>data = [\<lparr>coinObjectId = ''A'', balance = 2 ^ 53\<rparr>,
                           \<lparr>coinObjectId = ''B'', balance = 2 ^ 53 + 1\<rparr>],
                   nextCursor = None, hasNextPage = False\<rparr>] (2 ^ 53 + 1)
     = Inr (map coinObjectId [\<lparr>coinObjectId = ''A'', balance = 2 ^ 53\<rparr>,
                              \<lparr>coinObjectId = ''B'', balance = 2 ^ 53 + 1\<rparr>])
   \<and> \<not> sorted_wrt (\<lambda>a b. balance b \<le> balance a)
          [\<lparr>coinObjectId = ''A'', balance = 2 ^ 53\<rparr>, \<lparr>coinObjectId = ''B'', balance = 2 ^ 53 + 1\<rparr>]"
  using selectCoinIds_large_balances by (simp add: selectCoinIds_scenario_zero)





end
